theory Spec2Isabelle
  imports Main "HOL-Library.Sublist" "HOL-Library.AList" "HOL-Library.Multiset"
begin

section \<open>CODEOWNERS validator: the model\<close>

text \<open>
  A shallow embedding of \<^verbatim>\<open>src/lib/validator.ts\<close> (the second part of the file
  \<^verbatim>\<open>src/src/lib/validator.test.ts\<close>). A JavaScript string is a \<open>string\<close>; a
  \<open>char\<close> stands for one UTF-16 code unit below 256. The rule table
  \<^verbatim>\<open>Map<string, number>\<close> is an association list in insertion order whose keys are
  distinct; a counter is a \<open>nat\<close>. The file system and the manifest reader are inputs
  of the model, and a rejected promise is the value \<open>None\<close> or \<open>Inl\<close>.
\<close>

subsection \<open>String operations of the JavaScript library\<close>

text \<open>\<^verbatim>\<open>String.prototype.trim\<close>: white space and line terminators below code unit 256.\<close>

definition isWhiteSpace :: "char \<Rightarrow> bool" where
  "isWhiteSpace c \<longleftrightarrow>
     c \<in> {CHR 0x09, CHR 0x0A, CHR 0x0B, CHR 0x0C, CHR 0x0D, CHR 0x20, CHR 0xA0}"

definition trim :: "string \<Rightarrow> string" where
  "trim s = rev (dropWhile isWhiteSpace (rev (dropWhile isWhiteSpace s)))"

text \<open>
  \<^verbatim>\<open>s.split(sep)\<close> for a separator of one character. The result is never the empty
  array (\<^verbatim>\<open>''.split(' ')\<close> is \<^verbatim>\<open>['']\<close>), so the first branch of the \<open>case\<close> is
  never taken.
\<close>

fun splitOn :: "char \<Rightarrow> string \<Rightarrow> string list" where
  "splitOn sep [] = [[]]"
| "splitOn sep (c # cs) =
     (if c = sep then [] # splitOn sep cs
      else (case splitOn sep cs of [] \<Rightarrow> [[c]] | w # ws \<Rightarrow> (c # w) # ws))"

text \<open>
  The element \<^verbatim>\<open>[0]\<close> of a split, as in \<^verbatim>\<open>const [pathPattern] = line.split(' ')\<close>
  and \<^verbatim>\<open>cleanRule.split('*')[0]\<close>.
\<close>

definition firstPart :: "string list \<Rightarrow> string" where
  "firstPart parts = (case parts of [] \<Rightarrow> [] | x # _ \<Rightarrow> x)"

text \<open>\<^verbatim>\<open>Array.prototype.join\<close>.\<close>

fun joinWith :: "string \<Rightarrow> string list \<Rightarrow> string" where
  "joinWith sep [] = []"
| "joinWith sep [x] = x"
| "joinWith sep (x # y # ys) = x @ sep @ joinWith sep (y # ys)"

subsection \<open>normalizePath\<close>

text \<open>
  \<^verbatim>\<open>p.replace(/^\.\//, '').replace(/^\//, '').replace(/\/+$/, '').replace(/\\/g, '/')\<close>:
  one leading \<^verbatim>\<open>./\<close> is removed, then one leading \<^verbatim>\<open>/\<close>, then the whole run of
  slashes at the end, and last every backslash becomes a slash.
\<close>

definition stripLeadingDotSlash :: "string \<Rightarrow> string" where
  "stripLeadingDotSlash p = (if prefix ''./'' p then drop 2 p else p)"

definition stripLeadingSlash :: "string \<Rightarrow> string" where
  "stripLeadingSlash p = (if prefix ''/'' p then drop 1 p else p)"

definition stripTrailingSlashes :: "string \<Rightarrow> string" where
  "stripTrailingSlashes p = rev (dropWhile (\<lambda>c. c = CHR ''/'') (rev p))"

definition backslashToSlash :: "string \<Rightarrow> string" where
  "backslashToSlash p = map (\<lambda>c. if c = CHR 0x5C then CHR ''/'' else c) p"

definition normalizePath :: "string \<Rightarrow> string" where
  "normalizePath p =
     backslashToSlash (stripTrailingSlashes (stripLeadingSlash (stripLeadingDotSlash p)))"

subsection \<open>The glob matcher\<close>

text \<open>
  \<^verbatim>\<open>minimatch(path, pattern, options)\<close> is a library outside the repository. The
  functions of the validator take it as the parameter \<open>mm\<close>: \<open>mm path pattern matchBase\<close>,
  where \<open>matchBase\<close> says whether the call passes \<^verbatim>\<open>{matchBase: true}\<close>.
\<close>

type_synonym matcher = "string \<Rightarrow> string \<Rightarrow> bool \<Rightarrow> bool"

text \<open>
  Modelled from the spec: the glob matcher \<^verbatim>\<open>minimatch\<close>, whose code is not in the
  repository. The spec (4.2, case 3) gives \<^verbatim>\<open>*\<close> inside one segment, \<^verbatim>\<open>**\<close> over
  full segments, base-name matching and \<open>standard shell-glob semantics\<close>; where these
  words leave a choice the model takes what the library does with the options the
  validator passes (none but \<^verbatim>\<open>matchBase\<close>): a wildcard at the start of a segment
  does not match a leading dot, \<^verbatim>\<open>**\<close> swallows no segment that begins with a dot, a
  pattern that begins with \<^verbatim>\<open>#\<close> matches nothing, every leading \<^verbatim>\<open>!\<close> negates the
  result, and a run of slashes separates segments as one slash does.
\<close>

text \<open>
  Inside one segment \<^verbatim>\<open>*\<close> stands for any run of characters and \<^verbatim>\<open>?\<close> for one
  character; every other character stands for itself.
\<close>

definition isWildcard :: "char \<Rightarrow> bool" where
  "isWildcard c \<longleftrightarrow> c = CHR ''*'' \<or> c = CHR ''?''"

fun wildcardMatch :: "string \<Rightarrow> string \<Rightarrow> bool" where
  "wildcardMatch [] s = (s = [])"
| "wildcardMatch (p # ps) [] = (p = CHR ''*'' \<and> wildcardMatch ps [])"
| "wildcardMatch (p # ps) (c # cs) =
     (if p = CHR ''*'' then wildcardMatch ps (c # cs) \<or> wildcardMatch (p # ps) cs
      else (p = CHR ''?'' \<or> p = c) \<and> wildcardMatch ps cs)"

definition dotted :: "string \<Rightarrow> bool" where
  "dotted s \<longleftrightarrow> prefix ''.'' s"

text \<open>
  One pattern segment against one path segment. A segment with no wildcard is compared
  as a string. A segment with a wildcard matches no empty segment, and none that begins
  with a dot when the pattern segment begins with the wildcard.
\<close>

definition segmentMatch :: "string \<Rightarrow> string \<Rightarrow> bool" where
  "segmentMatch p f \<longleftrightarrow>
     (if list_ex isWildcard p
      then f \<noteq> [] \<and> \<not> (isWildcard (hd p) \<and> dotted f) \<and> wildcardMatch p f
      else p = f)"

text \<open>
  \<^verbatim>\<open>s.split(/\/+/)\<close>: the parts between runs of slashes; a run at the start or at the
  end leaves one empty part there.
\<close>

definition slashSplit :: "string \<Rightarrow> string list" where
  "slashSplit s =
     (case splitOn CHR ''/'' s of
        [] \<Rightarrow> []
      | [x] \<Rightarrow> [x]
      | x # rest \<Rightarrow> x # filter (\<lambda>w. w \<noteq> []) (butlast rest) @ [last rest])"

text \<open>
  The segments of the path against the segments of the pattern. A last segment \<^verbatim>\<open>**\<close>
  swallows all the segments left, of which there is at least one; a segment \<^verbatim>\<open>**\<close>
  before other segments swallows zero or more. When the pattern is used up, the path
  may have one empty segment left (it ended with a slash).
\<close>

fun matchOne :: "string list \<Rightarrow> string list \<Rightarrow> bool" where
  "matchOne [] [] = True"
| "matchOne [] (p # ps) = False"
| "matchOne (f # fs) [] = (fs = [] \<and> f = [])"
| "matchOne (f # fs) (p # ps) =
     (if p = ''**'' then
        (if ps = [] then list_all (\<lambda>x. \<not> dotted x) (f # fs)
         else matchOne (f # fs) ps \<or> (\<not> dotted f \<and> matchOne fs (p # ps)))
      else segmentMatch p f \<and> matchOne fs ps)"

text \<open>The base name: the last segment of the path that is not empty.\<close>

definition filenameOf :: "string list \<Rightarrow> string" where
  "filenameOf ff = (case filter (\<lambda>w. w \<noteq> []) ff of [] \<Rightarrow> [] | w # ws \<Rightarrow> last (w # ws))"

text \<open>
  The inputs the model answers for. Left out are the patterns in which the library
  reads an escape, a character class, a brace list or a group (a backslash, a bracket,
  a brace or a parenthesis), patterns longer than the library accepts, patterns of
  white space only and patterns with a segment \<^verbatim>\<open>.\<close> or \<^verbatim>\<open>..\<close>, and the paths with
  a segment \<^verbatim>\<open>.\<close> or \<^verbatim>\<open>..\<close> or with a line break.
\<close>

definition modelled :: "string \<Rightarrow> string \<Rightarrow> bool" where
  "modelled path pattern \<longleftrightarrow>
     int (length pattern) \<le> 65536
     \<and> list_all (\<lambda>c. c \<notin> set ''[]{}()'' \<and> c \<noteq> CHR 0x5C) pattern
     \<and> (pattern = [] \<or> trim pattern \<noteq> [])
     \<and> list_all (\<lambda>s. s \<noteq> ''.'' \<and> s \<noteq> ''..'')
          (slashSplit (dropWhile (\<lambda>c. c = CHR ''!'') pattern))
     \<and> list_all (\<lambda>s. s \<noteq> ''.'' \<and> s \<noteq> ''..'') (slashSplit path)
     \<and> list_all (\<lambda>c. c \<noteq> CHR 0x0A \<and> c \<noteq> CHR 0x0D) path"

text \<open>
  The answer of the library, \<open>None\<close> where the model has none. With base-name matching
  a pattern of one segment is matched against the base name of the path alone.
\<close>

definition minimatchModel :: "string \<Rightarrow> string \<Rightarrow> bool \<Rightarrow> bool option" where
  "minimatchModel path pattern matchBase =
     (if \<not> modelled path pattern then None
      else if prefix ''#'' pattern then Some False
      else if pattern = [] then Some (path = [])
      else
        (let negate = odd (length (takeWhile (\<lambda>c. c = CHR ''!'') pattern));
             parts = slashSplit (dropWhile (\<lambda>c. c = CHR ''!'') pattern);
             ff = slashSplit path;
             file = (if matchBase \<and> length parts = 1 then [filenameOf ff] else ff);
             hit = matchOne file parts
         in Some (if hit then \<not> negate else negate)))"

text \<open>A matcher follows the library when it gives the model's answer wherever there is one.\<close>

definition followsLibrary :: "matcher \<Rightarrow> bool" where
  "followsLibrary mm \<longleftrightarrow>
     (\<forall>path pattern matchBase v.
        minimatchModel path pattern matchBase = Some v \<longrightarrow> mm path pattern matchBase = v)"

text \<open>
  One such matcher, to run the functions on given inputs: it matches exactly where the
  model answers that the library does. Where the model has no answer it does not
  match; nothing is said about the library there.
\<close>

definition minimatch :: matcher where
  "minimatch path pattern matchBase \<longleftrightarrow> minimatchModel path pattern matchBase = Some True"

subsection \<open>ruleMatchesPath and isRuleRelevantToFolders\<close>

definition ruleMatchesPath :: "matcher \<Rightarrow> string \<Rightarrow> string \<Rightarrow> bool" where
  "ruleMatchesPath mm rule filePath =
     (let cleanRule = normalizePath rule;
          cleanPath = normalizePath filePath;
          hasGlob = CHR ''*'' \<in> set cleanRule
      in if hasGlob then mm cleanPath cleanRule True
         else mm cleanPath cleanRule False \<or> mm cleanPath (cleanRule @ ''/**'') False)"

text \<open>\<^verbatim>\<open>s.replace(/\/$/, '')\<close>: one slash at the end is removed.\<close>

definition stripOneTrailingSlash :: "string \<Rightarrow> string" where
  "stripOneTrailingSlash s = (if s \<noteq> [] \<and> last s = CHR ''/'' then butlast s else s)"

text \<open>
  The loop over the folders returns at the first folder that satisfies one of the
  tests; \<^verbatim>\<open>ruleBase &&\<close> is the test that the string is not empty.
\<close>

fun isRuleRelevantToFolders :: "matcher \<Rightarrow> string \<Rightarrow> string list \<Rightarrow> bool" where
  "isRuleRelevantToFolders mm rule [] = False"
| "isRuleRelevantToFolders mm rule (folder # folders) =
     (let cleanRule = normalizePath rule;
          cleanFolder = normalizePath folder
      in if prefix (cleanFolder @ ''/'') cleanRule \<or> cleanRule = cleanFolder then True
         else if prefix (cleanRule @ ''/'') cleanFolder \<or> cleanFolder = cleanRule then True
         else if CHR ''*'' \<in> set cleanRule then
           (if mm cleanFolder cleanRule True then True
            else
              (let ruleBase = stripOneTrailingSlash (firstPart (splitOn CHR ''*'' cleanRule))
               in if ruleBase \<noteq> [] \<and>
                     (prefix (ruleBase @ ''/'') cleanFolder \<or> cleanFolder = ruleBase)
                  then True
                  else isRuleRelevantToFolders mm rule folders))
         else isRuleRelevantToFolders mm rule folders)"

subsection \<open>Reading the manifest\<close>

definition isValidCodeOwnersLine :: "string \<Rightarrow> bool" where
  "isValidCodeOwnersLine line \<longleftrightarrow> \<not> prefix ''#'' line \<and> length (trim line) > 0"

type_synonym rules = "(string \<times> nat) list"

text \<open>
  The body of the loop over the lines: \<^verbatim>\<open>rules.set(pathPattern, 0)\<close> keeps the place
  of a key that is already in the table.
\<close>

definition parseLine :: "rules \<Rightarrow> string \<Rightarrow> rules" where
  "parseLine rules line =
     (if \<not> isValidCodeOwnersLine line then rules
      else (let pathPattern = firstPart (splitOn CHR '' '' line)
            in AList.update pathPattern 0 rules))"

text \<open>
  The argument is what the line reader yields: the lines of the manifest, or \<open>None\<close>
  when the file cannot be read.
\<close>

definition parseCodeOwnersFile :: "string list option \<Rightarrow> rules option" where
  "parseCodeOwnersFile manifest = map_option (foldl parseLine []) manifest"

subsection \<open>Enumerating the files\<close>

text \<open>
  What \<^verbatim>\<open>readdir(directoryPath, {withFileTypes: true})\<close> yields: named entries, each a
  regular file, a directory with its own listing (\<open>None\<close> when reading it fails), or
  something else (a link, a socket).
\<close>

datatype dirent = File | Other | Directory "(string \<times> dirent) list option"

lemma dirent_size_mem:
  "(name, Directory listing) \<in> set items \<Longrightarrow>
   size_option (size_list (size_prod (\<lambda>x. 0) size)) listing
     < size_list (size_prod (\<lambda>x. 0) size) items"
  by (induction items) auto

function getAllFiles :: "string \<Rightarrow> (string \<times> dirent) list option \<Rightarrow> string list option" where
  "getAllFiles directoryPath None = None"
| "getAllFiles directoryPath (Some items) =
     (let files = [directoryPath @ ''/'' @ name. (name, d) \<leftarrow> items, d = File];
          directories =
            [(directoryPath @ ''/'' @ name, listing). (name, Directory listing) \<leftarrow> items];
          nestedFiles = map (\<lambda>(dir, listing). getAllFiles dir listing) directories
      in map_option (\<lambda>nested. files @ concat nested) (those nestedFiles))"
  by pat_completeness auto
termination
  by (relation "measure (\<lambda>(p, l). size_option (size_list (size_prod (\<lambda>x. 0) size)) l)")
    (auto dest: dirent_size_mem)

text \<open>A file system gives the listing found at a root folder, \<open>None\<close> when there is none.\<close>

type_synonym filesystem = "string \<Rightarrow> (string \<times> dirent) list option"

definition scanAllFiles :: "filesystem \<Rightarrow> string list \<Rightarrow> string list option" where
  "scanAllFiles fs rootFolders =
     map_option concat (those (map (\<lambda>folder. getAllFiles folder (fs folder)) rootFolders))"

subsection \<open>Matching files against rules\<close>

text \<open>
  The loop visits the entries of the table in order and sets the counter of the entry
  it visits, so the entries it iterates over are those the table had at the start.
\<close>

definition checkOwnership :: "matcher \<Rightarrow> string \<Rightarrow> rules \<Rightarrow> bool \<times> rules" where
  "checkOwnership mm filePath rules =
     foldl (\<lambda>(owned, rs) (rule, count).
              if ruleMatchesPath mm rule filePath
              then (True, AList.update rule (count + 1) rs)
              else (owned, rs))
       (False, rules) rules"

text \<open>
  \<^verbatim>\<open>allFilePaths.filter(filePath => !checkOwnership(filePath, rules))\<close>: the filter
  calls \<open>checkOwnership\<close> on every path in order; the table is threaded through.
\<close>

fun filterUncovered :: "matcher \<Rightarrow> string list \<Rightarrow> rules \<Rightarrow> string list \<times> rules" where
  "filterUncovered mm [] rules = ([], rules)"
| "filterUncovered mm (filePath # rest) rules =
     (let (owned, rules1) = checkOwnership mm filePath rules;
          (uncovered, rules2) = filterUncovered mm rest rules1
      in (if \<not> owned then filePath # uncovered else uncovered, rules2))"

definition unusedRulesOf :: "matcher \<Rightarrow> rules \<Rightarrow> string list \<Rightarrow> string list" where
  "unusedRulesOf mm rules foldersToValidate =
     map fst (filter (\<lambda>(rule, count). count = 0 \<and> isRuleRelevantToFolders mm rule foldersToValidate)
                rules)"

definition errorMessages :: "string list \<Rightarrow> string list \<Rightarrow> string list" where
  "errorMessages unusedRules uncoveredFiles =
     (if length unusedRules > 0
      then [''CODEOWNERS contains rules that do not match any files in the specified folders:'']
           @ map (\<lambda>rule. ''  - '' @ rule) unusedRules
           @ ['''', ''Please remove these entries or verify the paths exist.'']
      else [])
     @ (if length uncoveredFiles > 0
        then [''The following files do not have owners:'']
             @ map (\<lambda>path. ''  - '' @ path) uncoveredFiles
             @ ['''', ''Please add rules to CODEOWNERS to cover these files.'']
        else [])"

text \<open>
  The two lists the run computes from the rule table and the enumerated paths:
  \<open>(unusedRules, uncoveredFiles)\<close>.
\<close>

definition report :: "matcher \<Rightarrow> rules \<Rightarrow> string list \<Rightarrow> string list \<Rightarrow> string list \<times> string list" where
  "report mm rules foldersToValidate allFilePaths =
     (let (uncoveredFiles, rules') = filterUncovered mm allFilePaths rules;
          unusedRules = unusedRulesOf mm rules' foldersToValidate
      in (unusedRules, uncoveredFiles))"

datatype failure = IOFailure | Error string

text \<open>
  \<open>Inl\<close> is the rejected promise: \<open>IOFailure\<close> when the manifest or a folder cannot be
  read, \<open>Error message\<close> for the \<^verbatim>\<open>throw new Error('\n' + errorMessages.join('\n'))\<close>
  of the function.
\<close>

definition validateCodeOwners ::
  "matcher \<Rightarrow> string list option \<Rightarrow> filesystem \<Rightarrow> string list \<Rightarrow> failure + unit" where
  "validateCodeOwners mm manifest fs foldersToValidate =
     (case (parseCodeOwnersFile manifest, scanAllFiles fs foldersToValidate) of
        (Some rules, Some allFilePaths) \<Rightarrow>
          (let (unusedRules, uncoveredFiles) = report mm rules foldersToValidate allFilePaths;
               msgs = errorMessages unusedRules uncoveredFiles
           in if length msgs > 0 then Inl (Error ([CHR 0x0A] @ joinWith [CHR 0x0A] msgs))
              else Inr ())
      | _ \<Rightarrow> Inl IOFailure)"

subsection \<open>The relevance test as the specification words it\<close>

text \<open>\<open>a\<close> equals \<open>b\<close> or is a path-segment prefix of it.\<close>

definition atOrAbove :: "string \<Rightarrow> string \<Rightarrow> bool" where
  "atOrAbove a b \<longleftrightarrow> a = b \<or> prefix (a @ ''/'') b"

text \<open>
  The literal portion of a pattern before its first wildcard character, with a
  separator at its end removed.
\<close>

definition literalBase :: "string \<Rightarrow> string" where
  "literalBase pattern = stripOneTrailingSlash (takeWhile (\<lambda>c. c \<noteq> CHR ''*'') pattern)"

text \<open>The four conditions of the specification (4.3) on a rule \<open>r\<close> and one folder \<open>d\<close>.\<close>

definition relevantAsSpecified :: "matcher \<Rightarrow> string \<Rightarrow> string \<Rightarrow> bool" where
  "relevantAsSpecified mm r d \<longleftrightarrow>
     (let cr = normalizePath r; cd = normalizePath d
      in atOrAbove cr cd
         \<or> atOrAbove cd cr
         \<or> (CHR ''*'' \<in> set r \<and> mm cd cr True)
         \<or> (CHR ''*'' \<in> set r \<and> atOrAbove (literalBase cr) cd))"

text \<open>The same with the fourth condition restricted to a literal portion that is not empty.\<close>

definition relevantToFolder :: "matcher \<Rightarrow> string \<Rightarrow> string \<Rightarrow> bool" where
  "relevantToFolder mm r d \<longleftrightarrow>
     (let cr = normalizePath r; cd = normalizePath d
      in atOrAbove cr cd
         \<or> atOrAbove cd cr
         \<or> (CHR ''*'' \<in> set r \<and> mm cd cr True)
         \<or> (CHR ''*'' \<in> set r \<and> literalBase cr \<noteq> [] \<and> atOrAbove (literalBase cr) cd))"

subsection \<open>Matching without a wildcard as the specification words it\<close>

text \<open>
  After normalization the path equals the rule or begins with the rule followed by
  \<^verbatim>\<open>/\<close> (specification 4.2, cases 1 and 2).
\<close>

definition matchesAsSpecified :: "string \<Rightarrow> string \<Rightarrow> bool" where
  "matchesAsSpecified r f \<longleftrightarrow>
     normalizePath f = normalizePath r \<or> prefix (normalizePath r @ ''/'') (normalizePath f)"

subsection \<open>Shell-glob matching as the specification words it\<close>






section \<open>Properties\<close>

subsection \<open>Splitting and joining\<close>


lemma firstPart_splitOn: "firstPart (splitOn sep s) = takeWhile (\<lambda>c. c \<noteq> sep) s"
  by (induction s) (auto simp: firstPart_def split: list.splits)

subsection \<open>normalizePath\<close>

lemma stripTrailingSlashes_decomp:
  "\<exists>n. p = stripTrailingSlashes p @ replicate n CHR ''/''"
proof -
  let ?P = "\<lambda>c. c = CHR ''/''"
  let ?t = "rev (takeWhile ?P (rev p))"
  have "p = rev (takeWhile ?P (rev p) @ dropWhile ?P (rev p))"
    by (simp only: takeWhile_dropWhile_id rev_rev_ident)
  then have p: "p = stripTrailingSlashes p @ ?t"
    by (simp only: rev_append stripTrailingSlashes_def)
  have "\<forall>y \<in> set ?t. y = CHR ''/''" by (auto dest: set_takeWhileD)
  then have "replicate (length ?t) CHR ''/'' = ?t" by (rule replicate_length_same)
  with p have "p = stripTrailingSlashes p @ replicate (length ?t) CHR ''/''" by simp
  then show ?thesis ..
qed

lemma stripTrailingSlashes_last:
  "stripTrailingSlashes p \<noteq> [] \<Longrightarrow> last (stripTrailingSlashes p) \<noteq> CHR ''/''"
  unfolding stripTrailingSlashes_def
  by (metis (mono_tags, lifting) dropWhile_eq_Nil_conv hd_dropWhile last_rev rev_is_Nil_conv)

lemma stripTrailingSlashes_id:
  "p = [] \<or> last p \<noteq> CHR ''/'' \<Longrightarrow> stripTrailingSlashes p = p"
  unfolding stripTrailingSlashes_def
  by (cases p rule: rev_cases) auto

lemma star_stripLeadingDotSlash:
  "CHR ''*'' \<in> set (stripLeadingDotSlash p) \<longleftrightarrow> CHR ''*'' \<in> set p"
  unfolding stripLeadingDotSlash_def by (auto simp: prefix_def)

lemma star_stripLeadingSlash:
  "CHR ''*'' \<in> set (stripLeadingSlash p) \<longleftrightarrow> CHR ''*'' \<in> set p"
  unfolding stripLeadingSlash_def by (auto simp: prefix_def)

lemma star_stripTrailingSlashes:
  "CHR ''*'' \<in> set (stripTrailingSlashes p) \<longleftrightarrow> CHR ''*'' \<in> set p"
proof -
  obtain n where "p = stripTrailingSlashes p @ replicate n CHR ''/''"
    using stripTrailingSlashes_decomp by blast
  then have "set p = set (stripTrailingSlashes p) \<union> set (replicate n CHR ''/'')"
    by (metis set_append)
  then show ?thesis by auto
qed

lemma star_backslashToSlash:
  "CHR ''*'' \<in> set (backslashToSlash p) \<longleftrightarrow> CHR ''*'' \<in> set p"
  by (auto simp: backslashToSlash_def)

lemma star_normalizePath: "CHR ''*'' \<in> set (normalizePath p) \<longleftrightarrow> CHR ''*'' \<in> set p"
  by (simp add: normalizePath_def star_backslashToSlash star_stripTrailingSlashes
      star_stripLeadingSlash star_stripLeadingDotSlash)

lemma backslashToSlash_id: "CHR 0x5C \<notin> set p \<Longrightarrow> backslashToSlash p = p"
  by (induction p) (auto simp: backslashToSlash_def)

lemma stripTrailingSlashes_prefix: "prefix (stripTrailingSlashes p) p"
  using stripTrailingSlashes_decomp[of p] by (metis prefixI)

lemma normalizePath_fixed:
  assumes "\<not> prefix ''./'' c" "\<not> prefix ''/'' c" "c = [] \<or> last c \<noteq> CHR ''/''"
    "CHR 0x5C \<notin> set c"
  shows "normalizePath c = c"
proof -
  have "stripLeadingDotSlash c = c" using assms(1) by (simp add: stripLeadingDotSlash_def)
  moreover have "stripLeadingSlash c = c" using assms(2) by (simp add: stripLeadingSlash_def)
  moreover have "stripTrailingSlashes c = c" using assms(3) by (rule stripTrailingSlashes_id)
  moreover have "backslashToSlash c = c" using assms(4) by (rule backslashToSlash_id)
  ultimately show ?thesis by (simp add: normalizePath_def)
qed

text \<open>
  Claim C6, amended. \<open>normalizePath\<close> removes one leading \<^verbatim>\<open>./\<close> and one leading
  \<^verbatim>\<open>/\<close> only, and turns backslashes into slashes after the slashes at the end are
  removed, so it is not idempotent on every input. It is idempotent on every path that
  has no backslash and whose rest, after one leading \<^verbatim>\<open>./\<close> and one leading \<^verbatim>\<open>/\<close>
  are removed, begins with neither \<^verbatim>\<open>/\<close> nor \<^verbatim>\<open>./\<close>.
\<close>

theorem normalizePath_idempotent_amended:
  assumes nb: "CHR 0x5C \<notin> set p"
    and ns: "\<not> prefix ''/'' (stripLeadingSlash (stripLeadingDotSlash p))"
    and nd: "\<not> prefix ''./'' (stripLeadingSlash (stripLeadingDotSlash p))"
  shows "normalizePath (normalizePath p) = normalizePath p"
proof -
  define r where "r = stripLeadingSlash (stripLeadingDotSlash p)"
  define c where "c = stripTrailingSlashes r"
  have sub: "set r \<subseteq> set p"
    unfolding r_def stripLeadingDotSlash_def stripLeadingSlash_def
    by (auto dest: in_set_dropD)
  have pc: "prefix c r" unfolding c_def by (rule stripTrailingSlashes_prefix)
  then have "set c \<subseteq> set r" by (simp add: set_mono_prefix)
  with sub nb have nbc: "CHR 0x5C \<notin> set c" by auto
  have n1: "normalizePath p = c"
    using backslashToSlash_id[OF nbc] by (simp add: normalizePath_def c_def r_def)
  have c1: "\<not> prefix ''./'' c" using nd pc unfolding r_def by (meson prefix_order.trans)
  have c2: "\<not> prefix ''/'' c" using ns pc unfolding r_def by (meson prefix_order.trans)
  have c3: "c = [] \<or> last c \<noteq> CHR ''/''"
    unfolding c_def using stripTrailingSlashes_last[of r] by blast
  have "normalizePath c = c" using c1 c2 c3 nbc by (rule normalizePath_fixed)
  with n1 show ?thesis by simp
qed

text \<open>The claim as stated fails at \<^verbatim>\<open>//a\<close>: once gives \<^verbatim>\<open>/a\<close>, twice gives \<^verbatim>\<open>a\<close>.\<close>

theorem normalizePath_not_idempotent:
  "normalizePath (normalizePath ''//a'') \<noteq> normalizePath ''//a''"
  by code_simp

theorem normalizePath_idempotent_witness:
  "normalizePath (normalizePath ''./pkg/lib//'') = normalizePath ''./pkg/lib//''
   \<and> normalizePath ''./pkg/lib//'' = ''pkg/lib''"
proof -
  have a: "CHR 0x5C \<notin> set ''./pkg/lib//''" by simp
  have b: "\<not> prefix ''/'' (stripLeadingSlash (stripLeadingDotSlash ''./pkg/lib//''))"
    by code_simp
  have c: "\<not> prefix ''./'' (stripLeadingSlash (stripLeadingDotSlash ''./pkg/lib//''))"
    by code_simp
  have d: "normalizePath ''./pkg/lib//'' = ''pkg/lib''"
    by code_simp
  show ?thesis using normalizePath_idempotent_amended[OF a b c] d by simp
qed

subsection \<open>Rules without a wildcard\<close>

lemma followsLibraryD:
  "followsLibrary mm \<Longrightarrow> minimatchModel path pattern matchBase = Some v \<Longrightarrow> mm path pattern matchBase = v"
  by (simp add: followsLibrary_def)

lemma followsLibrary_minimatch: "followsLibrary minimatch"
  by (simp add: followsLibrary_def minimatch_def)

lemma ruleMatchesPath_literal:
  assumes "normalizePath r = cr" and "normalizePath f = cf" and "CHR ''*'' \<notin> set cr"
  shows "ruleMatchesPath mm r f \<longleftrightarrow> mm cf cr False \<or> mm cf (cr @ ''/**'') False"
  using assms by (simp add: ruleMatchesPath_def Let_def)

text \<open>
  Claim C1 does not hold of the code. A rule with no \<^verbatim>\<open>*\<close> is still handed to the
  glob library, as it is and followed by \<^verbatim>\<open>/**\<close>. For every matcher that follows
  the library: the rule \<^verbatim>\<open>/pkg\<close> does not match \<^verbatim>\<open>pkg/.env\<close>, a file under the
  rule's directory, because \<^verbatim>\<open>**\<close> swallows no name that begins with a dot; the rule
  \<^verbatim>\<open>!pkg\<close> matches \<^verbatim>\<open>src/a.ts\<close>, because the leading \<^verbatim>\<open>!\<close> negates; and the rule
  \<^verbatim>\<open>/pkg/a.ts\<close> matches \<^verbatim>\<open>pkg//a.ts\<close>, because a run of slashes separates as one
  slash does. In each case the specification's condition says the opposite.
\<close>

theorem ruleMatchesPath_no_wildcard_divergence:
  assumes "followsLibrary mm"
  shows "\<not> ruleMatchesPath mm ''/pkg'' ''pkg/.env'' \<and> matchesAsSpecified ''/pkg'' ''pkg/.env''
    \<and> ruleMatchesPath mm ''!pkg'' ''src/a.ts'' \<and> \<not> matchesAsSpecified ''!pkg'' ''src/a.ts''
    \<and> ruleMatchesPath mm ''/pkg/a.ts'' ''pkg//a.ts'' \<and> \<not> matchesAsSpecified ''/pkg/a.ts'' ''pkg//a.ts''"
proof -
  have a1: "minimatchModel ''pkg/.env'' ''pkg'' False = Some False" by code_simp
  have a2: "minimatchModel ''pkg/.env'' (''pkg'' @ ''/**'') False = Some False" by code_simp
  have a: "\<not> ruleMatchesPath mm ''/pkg'' ''pkg/.env''"
  proof -
    have "normalizePath ''/pkg'' = ''pkg''" "normalizePath ''pkg/.env'' = ''pkg/.env''"
      "CHR ''*'' \<notin> set ''pkg''" by code_simp+
    from ruleMatchesPath_literal[OF this] show ?thesis
      using followsLibraryD[OF assms a1] followsLibraryD[OF assms a2] by simp
  qed
  have a': "matchesAsSpecified ''/pkg'' ''pkg/.env''" by code_simp
  have b1: "minimatchModel ''src/a.ts'' ''!pkg'' False = Some True" by code_simp
  have b: "ruleMatchesPath mm ''!pkg'' ''src/a.ts''"
  proof -
    have "normalizePath ''!pkg'' = ''!pkg''" "normalizePath ''src/a.ts'' = ''src/a.ts''"
      "CHR ''*'' \<notin> set ''!pkg''" by code_simp+
    from ruleMatchesPath_literal[OF this] show ?thesis
      using followsLibraryD[OF assms b1] by simp
  qed
  have b': "\<not> matchesAsSpecified ''!pkg'' ''src/a.ts''" by code_simp
  have c1: "minimatchModel ''pkg//a.ts'' ''pkg/a.ts'' False = Some True" by code_simp
  have c: "ruleMatchesPath mm ''/pkg/a.ts'' ''pkg//a.ts''"
  proof -
    have "normalizePath ''/pkg/a.ts'' = ''pkg/a.ts''" "normalizePath ''pkg//a.ts'' = ''pkg//a.ts''"
      "CHR ''*'' \<notin> set ''pkg/a.ts''" by code_simp+
    from ruleMatchesPath_literal[OF this] show ?thesis
      using followsLibraryD[OF assms c1] by simp
  qed
  have c': "\<not> matchesAsSpecified ''/pkg/a.ts'' ''pkg//a.ts''" by code_simp
  show ?thesis using a a' b b' c c' by blast
qed

theorem ruleMatchesPath_no_wildcard_divergence_witness:
  "followsLibrary minimatch \<and> \<not> ruleMatchesPath minimatch ''/pkg'' ''pkg/.env''
   \<and> ruleMatchesPath minimatch ''!pkg'' ''src/a.ts''
   \<and> ruleMatchesPath minimatch ''/pkg/a.ts'' ''pkg//a.ts''"
  using ruleMatchesPath_no_wildcard_divergence[OF followsLibrary_minimatch] followsLibrary_minimatch by blast

subsection \<open>Rules with a wildcard\<close>






















subsection \<open>Relevance of a rule to the folders\<close>

lemma isRuleRelevantToFolders_Cons:
  "isRuleRelevantToFolders mm r (d # F) \<longleftrightarrow>
     isRuleRelevantToFolders mm r [d] \<or> isRuleRelevantToFolders mm r F"
  by (simp add: Let_def)

lemma isRuleRelevantToFolders_ex:
  "isRuleRelevantToFolders mm r F \<longleftrightarrow> (\<exists>d \<in> set F. isRuleRelevantToFolders mm r [d])"
proof (induction F)
  case Nil
  then show ?case by simp
next
  case (Cons d F)
  have "isRuleRelevantToFolders mm r (d # F) \<longleftrightarrow>
      isRuleRelevantToFolders mm r [d] \<or> isRuleRelevantToFolders mm r F"
    by (rule isRuleRelevantToFolders_Cons)
  also have "\<dots> \<longleftrightarrow> isRuleRelevantToFolders mm r [d] \<or> (\<exists>x \<in> set F. isRuleRelevantToFolders mm r [x])"
    using Cons.IH by blast
  also have "\<dots> \<longleftrightarrow> (\<exists>x \<in> set (d # F). isRuleRelevantToFolders mm r [x])"
    by (simp only: list.set bex_simps)
  finally show ?case .
qed

lemma isRuleRelevantToFolders_single:
  "isRuleRelevantToFolders mm r [d] \<longleftrightarrow> relevantToFolder mm r d"
  by (auto simp: relevantToFolder_def atOrAbove_def literalBase_def Let_def
      firstPart_splitOn star_normalizePath)

text \<open>
  Claim C3, amended. A rule is relevant to a list of folders exactly when some folder
  \<open>d\<close> of the list satisfies one of: the normalized rule equals the normalized folder
  or is a path-segment prefix of it; the normalized folder equals the normalized rule or
  is a path-segment prefix of it; the rule has a wildcard and glob-matches the
  normalized folder with base-name matching; the rule has a wildcard and the literal
  portion of the normalized rule before the first \<^verbatim>\<open>*\<close>, with one \<^verbatim>\<open>/\<close> at its end
  removed, is not empty and equals the normalized folder or is a path-segment prefix of
  it. The matcher is any function \<open>mm\<close>.
\<close>

theorem isRuleRelevantToFolders_amended:
  "isRuleRelevantToFolders mm r F \<longleftrightarrow> (\<exists>d \<in> set F. relevantToFolder mm r d)"
proof -
  have "isRuleRelevantToFolders mm r F \<longleftrightarrow> (\<exists>d \<in> set F. isRuleRelevantToFolders mm r [d])"
    by (rule isRuleRelevantToFolders_ex)
  also have "\<dots> \<longleftrightarrow> (\<exists>d \<in> set F. relevantToFolder mm r d)"
    by (simp only: isRuleRelevantToFolders_single)
  finally show ?thesis .
qed

text \<open>
  Without the test that the literal portion is not empty the fourth condition holds of
  the rule \<^verbatim>\<open>*.ts\<close> and the folder \<^verbatim>\<open>/\<close>, which the function does not accept.
\<close>

theorem isRuleRelevantToFolders_not_as_specified:
  "\<not> isRuleRelevantToFolders minimatch ''*.ts'' [''/''] \<and> relevantAsSpecified minimatch ''*.ts'' ''/''"
  by code_simp

theorem isRuleRelevantToFolders_amended_witness:
  "isRuleRelevantToFolders minimatch ''/src/*.ts'' [''docs'', ''src''] \<and>
   (\<exists>d \<in> set [''docs'', ''src'']. relevantToFolder minimatch ''/src/*.ts'' d)"
proof -
  have "isRuleRelevantToFolders minimatch ''/src/*.ts'' [''docs'', ''src'']" by code_simp
  then show ?thesis using isRuleRelevantToFolders_amended[of minimatch "''/src/*.ts''" "[''docs'', ''src'']"] by blast
qed

text \<open>
  Claim C8. Relevance is monotonic in the folder list: a rule relevant to \<open>F\<close> is
  relevant to every list \<open>F'\<close> that holds all the folders of \<open>F\<close>.
\<close>

theorem isRuleRelevantToFolders_mono:
  "set F \<subseteq> set F' \<Longrightarrow> isRuleRelevantToFolders mm r F \<Longrightarrow> isRuleRelevantToFolders mm r F'"
  using isRuleRelevantToFolders_ex[of mm r F] isRuleRelevantToFolders_ex[of mm r F'] by blast

theorem isRuleRelevantToFolders_mono_witness:
  "set [''src''] \<subseteq> set [''docs'', ''src'', ''pkg''] \<and> isRuleRelevantToFolders minimatch ''/src/lib'' [''src'']
   \<and> isRuleRelevantToFolders minimatch ''/src/lib'' [''docs'', ''src'', ''pkg'']"
proof -
  have a: "set [''src''] \<subseteq> set [''docs'', ''src'', ''pkg'']" by simp
  have b: "isRuleRelevantToFolders minimatch ''/src/lib'' [''src'']" by code_simp
  show ?thesis using isRuleRelevantToFolders_mono[OF a b] a b by simp
qed

subsection \<open>The rule table\<close>

lemma update_at_key:
  "k \<notin> fst ` set xs \<Longrightarrow> AList.update k v (xs @ (k, c) # ys) = xs @ (k, v) # ys"
  by (induction xs) auto

lemma checkOwnership_loop:
  assumes "distinct (map fst (xs @ ys))"
  shows "foldl (\<lambda>(owned, rs) (rule, count).
              if ruleMatchesPath mm rule f
              then (True, AList.update rule (count + 1) rs)
              else (owned, rs))
          (b, map (\<lambda>(r, c). (r, if ruleMatchesPath mm r f then c + 1 else c)) xs @ ys) ys
       = (b \<or> (\<exists>r \<in> fst ` set ys. ruleMatchesPath mm r f),
          map (\<lambda>(r, c). (r, if ruleMatchesPath mm r f then c + 1 else c)) (xs @ ys))"
  using assms
proof (induction ys arbitrary: xs b)
  case Nil
  then show ?case by simp
next
  case (Cons e ys)
  obtain r c where e: "e = (r, c)" by (cases e)
  let ?g = "\<lambda>(r, c). (r, if ruleMatchesPath mm r f then c + 1 else c)"
  have nk: "r \<notin> fst ` set (map ?g xs)"
    using Cons.prems e by (auto simp: image_iff split: prod.splits)
  have d: "distinct (map fst ((xs @ [e]) @ ys))" using Cons.prems by simp
  show ?case
  proof (cases "ruleMatchesPath mm r f")
    case True
    have "AList.update r (c + 1) (map ?g xs @ (r, c) # ys) = map ?g (xs @ [e]) @ ys"
      using update_at_key[OF nk] True e by simp
    then show ?thesis
      using Cons.IH[OF d, of True] True e by simp
  next
    case False
    have "map ?g xs @ (r, c) # ys = map ?g (xs @ [e]) @ ys"
      using False e by simp
    then show ?thesis
      using Cons.IH[OF d, of b] False e by simp
  qed
qed

lemma checkOwnership_eq:
  assumes "distinct (map fst rules)"
  shows "checkOwnership mm f rules =
    ((\<exists>r \<in> fst ` set rules. ruleMatchesPath mm r f),
     map (\<lambda>(r, c). (r, if ruleMatchesPath mm r f then c + 1 else c)) rules)"
  using checkOwnership_loop[of "[]" rules mm f False] assms
  by (simp add: checkOwnership_def)

lemma credited_keys:
  "map fst (map (\<lambda>(r, c). (r, if ruleMatchesPath mm r f then c + 1 else c)) rules) = map fst rules"
  by (induction rules) auto

lemma filterUncovered_eq:
  assumes "distinct (map fst rules)"
  shows "filterUncovered mm files rules =
    (filter (\<lambda>f. \<not> (\<exists>r \<in> fst ` set rules. ruleMatchesPath mm r f)) files,
     map (\<lambda>(r, c). (r, c + length (filter (ruleMatchesPath mm r) files))) rules)"
  using assms
proof (induction files arbitrary: rules)
  case Nil
  then show ?case by simp
next
  case (Cons f files)
  let ?rules1 = "map (\<lambda>(r, c). (r, if ruleMatchesPath mm r f then c + 1 else c)) rules"
  have k: "map fst ?rules1 = map fst rules" by (rule credited_keys)
  have d1: "distinct (map fst ?rules1)" unfolding k by (rule Cons.prems)
  have s1: "fst ` set ?rules1 = fst ` set rules" using k by (metis set_map)
  have m: "map (\<lambda>(r, c). (r, c + length (filter (ruleMatchesPath mm r) files))) ?rules1
     = map (\<lambda>(r, c). (r, c + length (filter (ruleMatchesPath mm r) (f # files)))) rules"
    by (induction rules) auto
  define owned where "owned = (\<exists>r \<in> fst ` set rules. ruleMatchesPath mm r f)"
  define unc where
    "unc = filter (\<lambda>f'. \<not> (\<exists>r \<in> fst ` set rules. ruleMatchesPath mm r f')) files"
  define final where
    "final = map (\<lambda>(r, c). (r, c + length (filter (ruleMatchesPath mm r) (f # files)))) rules"
  have co: "checkOwnership mm f rules = (owned, ?rules1)"
    unfolding owned_def by (rule checkOwnership_eq[OF Cons.prems])
  have ih: "filterUncovered mm files ?rules1 = (unc, final)"
    using Cons.IH[OF d1] unfolding s1 m unc_def final_def .
  have "filterUncovered mm (f # files) rules = (if \<not> owned then f # unc else unc, final)"
    by (simp add: co ih)
  also have "(if \<not> owned then f # unc else unc)
      = filter (\<lambda>f'. \<not> (\<exists>r \<in> fst ` set rules. ruleMatchesPath mm r f')) (f # files)"
    unfolding owned_def unc_def by simp
  finally show ?case unfolding final_def .
qed

lemma parseLine_distinct: "distinct (map fst rules) \<Longrightarrow> distinct (map fst (parseLine rules line))"
  by (simp add: parseLine_def Let_def distinct_update)

lemma update_zero:
  fixes rules :: rules
  shows "\<forall>e \<in> set rules. snd e = 0 \<Longrightarrow> \<forall>e \<in> set (AList.update k 0 rules). snd e = 0"
  by (induction rules) auto

lemma parseLine_zero:
  "\<forall>e \<in> set rules. snd e = 0 \<Longrightarrow> \<forall>e \<in> set (parseLine rules line). snd e = 0"
  unfolding parseLine_def Let_def using update_zero[of rules] by (cases "isValidCodeOwnersLine line") simp_all

lemma parse_fold_invariant:
  "distinct (map fst rules) \<Longrightarrow> \<forall>e \<in> set rules. snd e = 0 \<Longrightarrow>
   distinct (map fst (foldl parseLine rules ls)) \<and> (\<forall>e \<in> set (foldl parseLine rules ls). snd e = 0)"
proof (induction ls arbitrary: rules)
  case Nil
  then show ?case by simp
next
  case (Cons l ls)
  have "distinct (map fst (parseLine rules l))" using Cons.prems(1) by (rule parseLine_distinct)
  moreover have "\<forall>e \<in> set (parseLine rules l). snd e = 0"
    using Cons.prems(2) by (rule parseLine_zero)
  ultimately show ?case using Cons.IH[of "parseLine rules l"] by simp
qed

lemma parseCodeOwnersFile_table:
  assumes "parseCodeOwnersFile manifest = Some rules"
  shows "distinct (map fst rules)" and "\<forall>e \<in> set rules. snd e = 0"
proof -
  obtain ls where "manifest = Some ls" "rules = foldl parseLine [] ls"
    using assms by (auto simp: parseCodeOwnersFile_def)
  then show "distinct (map fst rules)" and "\<forall>e \<in> set rules. snd e = 0"
    using parse_fold_invariant[of "[]" ls] by simp_all
qed

lemma zero_counters_map:
  fixes rules :: rules and g :: "string \<Rightarrow> nat"
  shows "\<forall>e \<in> set rules. snd e = 0 \<Longrightarrow>
   map (\<lambda>(r, c). (r, c + g r)) rules = map (\<lambda>(r, c). (r, g r)) rules"
  by (induction rules) auto

lemma final_counters:
  assumes "parseCodeOwnersFile manifest = Some rules"
  shows "snd (filterUncovered mm files rules) =
     map (\<lambda>(r, c). (r, length (filter (ruleMatchesPath mm r) files))) rules"
  using filterUncovered_eq[OF parseCodeOwnersFile_table(1)[OF assms], of mm files]
    zero_counters_map[OF parseCodeOwnersFile_table(2)[OF assms]]
  by simp

lemma unused_of_final:
  "unusedRulesOf mm (map (\<lambda>(r, c). (r, g r)) rules) folders =
    filter (\<lambda>r. g r = 0 \<and> isRuleRelevantToFolders mm r folders) (map fst rules)"
  by (induction rules) (auto simp: unusedRulesOf_def)

lemma report_eq:
  assumes "parseCodeOwnersFile manifest = Some rules"
  shows "report mm rules folders files =
    (filter (\<lambda>r. length (filter (ruleMatchesPath mm r) files) = 0 \<and> isRuleRelevantToFolders mm r folders)
       (map fst rules),
     filter (\<lambda>f. \<not> (\<exists>r \<in> fst ` set rules. ruleMatchesPath mm r f)) files)"
proof -
  have "filterUncovered mm files rules =
     (filter (\<lambda>f. \<not> (\<exists>r \<in> fst ` set rules. ruleMatchesPath mm r f)) files,
      map (\<lambda>(r, c). (r, length (filter (ruleMatchesPath mm r) files))) rules)"
    using filterUncovered_eq[OF parseCodeOwnersFile_table(1)[OF assms], of mm files]
      zero_counters_map[OF parseCodeOwnersFile_table(2)[OF assms]]
    by simp
  then show ?thesis
    by (simp add: report_def unused_of_final)
qed

text \<open>
  Claim C7 does not hold of the code on indented lines. The line
  \<^verbatim>\<open>  /pkg @owner\<close> is accepted, but the pattern stored for it is the empty string
  and not its first token; the comment line \<^verbatim>\<open>  # comment\<close> is accepted as a rule.
\<close>

theorem parse_indented_lines:
  "isValidCodeOwnersLine ''  /pkg @owner''
   \<and> parseCodeOwnersFile (Some [''  /pkg @owner'']) = Some [('''', 0)]
   \<and> isValidCodeOwnersLine ''  # comment''"
  by code_simp

text \<open>
  Claim C5. One call of \<open>checkOwnership\<close> on a table with distinct keys leaves every
  counter as it was or adds one to it (one exactly for the rules that match the path).
  After all files are processed the counter of every rule of the manifest is the number
  of enumerated paths the rule matches, and the unused rules are computed from this
  final table: they are the rules with final counter zero that are relevant.
\<close>

theorem match_counters:
  assumes "distinct (map fst table)" and "parseCodeOwnersFile (Some manifestLines) = Some rules"
  shows "snd (checkOwnership mm filePath table) =
           map (\<lambda>(r, c). (r, if ruleMatchesPath mm r filePath then c + 1 else c)) table
       \<and> snd (filterUncovered mm files rules) =
           map (\<lambda>(r, c). (r, length (filter (ruleMatchesPath mm r) files))) rules
       \<and> fst (report mm rules folders files) =
           unusedRulesOf mm (snd (filterUncovered mm files rules)) folders
       \<and> fst (report mm rules folders files) =
           filter (\<lambda>r. length (filter (ruleMatchesPath mm r) files) = 0
                       \<and> isRuleRelevantToFolders mm r folders) (map fst rules)"
proof -
  have a: "snd (checkOwnership mm filePath table) =
           map (\<lambda>(r, c). (r, if ruleMatchesPath mm r filePath then c + 1 else c)) table"
    using checkOwnership_eq[OF assms(1)] by simp
  have b: "snd (filterUncovered mm files rules) =
           map (\<lambda>(r, c). (r, length (filter (ruleMatchesPath mm r) files))) rules"
    using final_counters[OF assms(2)] .
  have c: "fst (report mm rules folders files) =
           unusedRulesOf mm (snd (filterUncovered mm files rules)) folders"
    by (simp add: report_def split: prod.splits)
  have d: "fst (report mm rules folders files) =
           filter (\<lambda>r. length (filter (ruleMatchesPath mm r) files) = 0
                       \<and> isRuleRelevantToFolders mm r folders) (map fst rules)"
    using report_eq[OF assms(2)] by simp
  show ?thesis using a b c d by blast
qed

theorem match_counters_witness:
  "distinct (map fst [(''/pkg'', 0::nat), (''/docs'', 2)])
   \<and> parseCodeOwnersFile (Some [''/pkg/lib @owner'', ''# docs'', ''/docs @owner''])
       = Some [(''/pkg/lib'', 0), (''/docs'', 0)]
   \<and> snd (checkOwnership minimatch ''pkg/x.ts'' [(''/pkg'', 0), (''/docs'', 2)])
       = [(''/pkg'', 1), (''/docs'', 2)]
   \<and> snd (filterUncovered minimatch [''pkg/lib/a.ts'', ''pkg/lib/b.ts'', ''pkg/c.ts'']
         [(''/pkg/lib'', 0), (''/docs'', 0)])
       = [(''/pkg/lib'', 2), (''/docs'', 0)]
   \<and> fst (report minimatch [(''/pkg/lib'', 0), (''/docs'', 0)] [''pkg'']
         [''pkg/lib/a.ts'', ''pkg/lib/b.ts'', ''pkg/c.ts'']) = []"
proof -
  let ?table = "[(''/pkg'', 0::nat), (''/docs'', 2)]"
  let ?rules = "[(''/pkg/lib'', 0::nat), (''/docs'', 0)]"
  let ?files = "[''pkg/lib/a.ts'', ''pkg/lib/b.ts'', ''pkg/c.ts'']"
  have d: "distinct (map fst ?table)" by simp
  have p: "parseCodeOwnersFile (Some [''/pkg/lib @owner'', ''# docs'', ''/docs @owner''])
      = Some ?rules"
    by code_simp
  note c = match_counters[OF d p, where mm = minimatch and filePath = "''pkg/x.ts''"
      and files = ?files and folders = "[''pkg'']"]
  have e1: "map (\<lambda>(r, c). (r, if ruleMatchesPath minimatch r ''pkg/x.ts'' then c + 1 else c)) ?table
      = [(''/pkg'', 1), (''/docs'', 2)]"
    by code_simp
  have e2: "map (\<lambda>(r, c). (r, length (filter (ruleMatchesPath minimatch r) ?files))) ?rules
      = [(''/pkg/lib'', 2), (''/docs'', 0)]"
    by code_simp
  have e3: "filter (\<lambda>r. length (filter (ruleMatchesPath minimatch r) ?files) = 0
                       \<and> isRuleRelevantToFolders minimatch r [''pkg'']) (map fst ?rules) = []"
    by code_simp
  show ?thesis using c d p unfolding e1 e2 e3 by blast
qed

subsection \<open>The verdict\<close>

lemma errorMessages_Nil: "errorMessages u c = [] \<longleftrightarrow> u = [] \<and> c = []"
  by (auto simp: errorMessages_def)

lemma errorMessages_lists:
  "(\<forall>r \<in> set u. ''  - '' @ r \<in> set (errorMessages u c))
   \<and> (\<forall>f \<in> set c. ''  - '' @ f \<in> set (errorMessages u c))"
  by (auto simp: errorMessages_def)

lemma validateCodeOwners_unfold:
  assumes "parseCodeOwnersFile manifest = Some rules"
    and "scanAllFiles fs folders = Some files"
    and "report mm rules folders files = (u, c)"
  shows "validateCodeOwners mm manifest fs folders =
    (if errorMessages u c \<noteq> [] then Inl (Error ([CHR 0x0A] @ joinWith [CHR 0x0A] (errorMessages u c)))
     else Inr ())"
  using assms by (simp add: validateCodeOwners_def Let_def)

lemma count_filter_mset:
  "mset xs = mset ys \<Longrightarrow> length (filter P xs) = length (filter P ys)"
  by (metis mset_filter size_mset)

lemma sublist_prepend: "sublist x zs \<Longrightarrow> sublist x (ps @ zs)"
  by (simp add: sublist_append)

lemma joinWith_holds_line: "x \<in> set xs \<Longrightarrow> sublist x (joinWith sep xs)"
proof (induction sep xs rule: joinWith.induct)
  case (1 sep)
  then show ?case by simp
next
  case (2 sep y)
  then show ?case by simp
next
  case (3 sep y z zs)
  show ?case
  proof (cases "x = y")
    case True
    then show ?thesis by (simp add: sublist_append_rightI)
  next
    case False
    with 3 have "sublist x (joinWith sep (z # zs))" by simp
    then have "sublist x ((y @ sep) @ joinWith sep (z # zs))" by (rule sublist_prepend)
    then show ?thesis by simp
  qed
qed

lemma message_holds_line:
  "x \<in> set xs \<Longrightarrow> sublist x ([CHR 0x0A] @ joinWith [CHR 0x0A] xs)"
  by (rule sublist_prepend) (rule joinWith_holds_line)

text \<open>
  Claim C4. When the manifest and the folders can be read, the validation succeeds
  exactly when both lists of the report are empty, and fails otherwise with one error
  whose message is built from both lists: the line of every unused rule and the line
  of every uncovered file occur in the message. The uncovered files are the enumerated
  paths no rule matches; the unused rules are the relevant rules that match no
  enumerated path.
\<close>

theorem validateCodeOwners_fails_iff_report:
  assumes "parseCodeOwnersFile manifest = Some rules"
    and "scanAllFiles fs folders = Some files"
    and "report mm rules folders files = (unusedRules, uncoveredFiles)"
  shows "(validateCodeOwners mm manifest fs folders = Inr () \<longleftrightarrow> unusedRules = [] \<and> uncoveredFiles = [])
    \<and> (unusedRules \<noteq> [] \<or> uncoveredFiles \<noteq> [] \<longrightarrow>
         validateCodeOwners mm manifest fs folders
           = Inl (Error ([CHR 0x0A] @ joinWith [CHR 0x0A] (errorMessages unusedRules uncoveredFiles))))
    \<and> (\<forall>r \<in> set unusedRules. ''  - '' @ r \<in> set (errorMessages unusedRules uncoveredFiles))
    \<and> (\<forall>f \<in> set uncoveredFiles. ''  - '' @ f \<in> set (errorMessages unusedRules uncoveredFiles))
    \<and> (unusedRules \<noteq> [] \<or> uncoveredFiles \<noteq> [] \<longrightarrow>
         (\<exists>message. validateCodeOwners mm manifest fs folders = Inl (Error message)
            \<and> (\<forall>r \<in> set unusedRules. sublist (''  - '' @ r) message)
            \<and> (\<forall>f \<in> set uncoveredFiles. sublist (''  - '' @ f) message)))
    \<and> set uncoveredFiles = {f \<in> set files. \<forall>r \<in> fst ` set rules. \<not> ruleMatchesPath mm r f}
    \<and> set unusedRules = {r \<in> fst ` set rules. isRuleRelevantToFolders mm r folders
                              \<and> (\<forall>f \<in> set files. \<not> ruleMatchesPath mm r f)}"
proof -
  note v = validateCodeOwners_unfold[OF assms]
  let ?msgs = "errorMessages unusedRules uncoveredFiles"
  let ?message = "[CHR 0x0A] @ joinWith [CHR 0x0A] ?msgs"
  have a: "validateCodeOwners mm manifest fs folders = Inr () \<longleftrightarrow> unusedRules = [] \<and> uncoveredFiles = []"
    using v errorMessages_Nil[of unusedRules uncoveredFiles] by auto
  have b: "unusedRules \<noteq> [] \<or> uncoveredFiles \<noteq> [] \<longrightarrow>
         validateCodeOwners mm manifest fs folders = Inl (Error ?message)"
    using v errorMessages_Nil[of unusedRules uncoveredFiles] by auto
  note l = errorMessages_lists[of unusedRules uncoveredFiles]
  have m1: "\<forall>r \<in> set unusedRules. sublist (''  - '' @ r) ?message"
    using l message_holds_line by blast
  have m2: "\<forall>f \<in> set uncoveredFiles. sublist (''  - '' @ f) ?message"
    using l message_holds_line by blast
  have c: "unusedRules \<noteq> [] \<or> uncoveredFiles \<noteq> [] \<longrightarrow>
         (\<exists>message. validateCodeOwners mm manifest fs folders = Inl (Error message)
            \<and> (\<forall>r \<in> set unusedRules. sublist (''  - '' @ r) message)
            \<and> (\<forall>f \<in> set uncoveredFiles. sublist (''  - '' @ f) message))"
    using b m1 m2 by blast
  have r: "unusedRules = filter (\<lambda>r. length (filter (ruleMatchesPath mm r) files) = 0
                 \<and> isRuleRelevantToFolders mm r folders) (map fst rules)"
     "uncoveredFiles = filter (\<lambda>f. \<not> (\<exists>r \<in> fst ` set rules. ruleMatchesPath mm r f)) files"
    using report_eq[OF assms(1), of mm folders files] assms(3) by simp_all
  have e: "set uncoveredFiles = {f \<in> set files. \<forall>r \<in> fst ` set rules. \<not> ruleMatchesPath mm r f}"
    unfolding r(2) by auto
  have f: "set unusedRules = {r \<in> fst ` set rules. isRuleRelevantToFolders mm r folders
                              \<and> (\<forall>f \<in> set files. \<not> ruleMatchesPath mm r f)}"
    unfolding r(1) by (auto simp: filter_empty_conv)
  show ?thesis using a b l c e f by blast
qed

theorem validateCodeOwners_fails_iff_report_witness:
  "validateCodeOwners minimatch (Some [''/pkg/stale @owner''])
     (\<lambda>p. if p = ''pkg'' then Some [(''unowned'', Directory (Some [(''file.ts'', File)]))] else None)
     [''pkg'']
   = Inl (Error ([CHR 0x0A] @ joinWith [CHR 0x0A]
       (errorMessages [''/pkg/stale''] [''pkg/unowned/file.ts''])))
   \<and> ''  - /pkg/stale'' \<in> set (errorMessages [''/pkg/stale''] [''pkg/unowned/file.ts''])
   \<and> ''  - pkg/unowned/file.ts'' \<in> set (errorMessages [''/pkg/stale''] [''pkg/unowned/file.ts''])
   \<and> validateCodeOwners minimatch (Some [''/pkg/stale @owner''])
     (\<lambda>p. if p = ''pkg'' then Some [(''unowned'', Directory (Some [(''file.ts'', File)]))] else None)
     [''pkg'']
   = Inl (Error ([CHR 0x0A]
       @ ''CODEOWNERS contains rules that do not match any files in the specified folders:''
       @ [CHR 0x0A] @ ''  - /pkg/stale''
       @ [CHR 0x0A]
       @ [CHR 0x0A] @ ''Please remove these entries or verify the paths exist.''
       @ [CHR 0x0A] @ ''The following files do not have owners:''
       @ [CHR 0x0A] @ ''  - pkg/unowned/file.ts''
       @ [CHR 0x0A]
       @ [CHR 0x0A] @ ''Please add rules to CODEOWNERS to cover these files.''))"
proof -
  let ?fs = "\<lambda>p. if p = ''pkg'' then Some [(''unowned'', Directory (Some [(''file.ts'', File)]))] else None"
  have p: "parseCodeOwnersFile (Some [''/pkg/stale @owner'']) = Some [(''/pkg/stale'', 0)]"
    by code_simp
  have s: "scanAllFiles ?fs [''pkg''] = Some [''pkg/unowned/file.ts'']"
    by (simp add: scanAllFiles_def)
  have r: "report minimatch [(''/pkg/stale'', 0)] [''pkg''] [''pkg/unowned/file.ts'']
      = ([''/pkg/stale''], [''pkg/unowned/file.ts''])"
    by code_simp
  have j: "joinWith [CHR 0x0A] (errorMessages [''/pkg/stale''] [''pkg/unowned/file.ts''])
      = ''CODEOWNERS contains rules that do not match any files in the specified folders:''
       @ [CHR 0x0A] @ ''  - /pkg/stale''
       @ [CHR 0x0A]
       @ [CHR 0x0A] @ ''Please remove these entries or verify the paths exist.''
       @ [CHR 0x0A] @ ''The following files do not have owners:''
       @ [CHR 0x0A] @ ''  - pkg/unowned/file.ts''
       @ [CHR 0x0A]
       @ [CHR 0x0A] @ ''Please add rules to CODEOWNERS to cover these files.''"
    by (simp add: errorMessages_def)
  show ?thesis using validateCodeOwners_fails_iff_report[OF p s r] j by simp
qed

lemma report_distinct:
  assumes "distinct (map fst rules)"
  shows "report mm rules folders files =
    (unusedRulesOf mm
       (map (\<lambda>(r, c). (r, c + length (filter (ruleMatchesPath mm r) files))) rules) folders,
     filter (\<lambda>f. \<not> (\<exists>r \<in> fst ` set rules. ruleMatchesPath mm r f)) files)"
  by (simp add: report_def filterUncovered_eq[OF assms])

text \<open>
  Claim C9. The outcome does not depend on the order of the enumerated files: for every
  rule table, folder list and file list, and every permutation of the file list, the
  unused rules are the same, the uncovered files are the same up to order, and a run
  that enumerates the one list fails exactly when a run that enumerates the other does.
\<close>

theorem file_order_invariance:
  assumes "distinct (map fst rules)" and "mset files' = mset files"
  shows "fst (report mm rules folders files') = fst (report mm rules folders files)
    \<and> mset (snd (report mm rules folders files')) = mset (snd (report mm rules folders files))
    \<and> (parseCodeOwnersFile manifest = Some rules \<longrightarrow>
        scanAllFiles fs folders = Some files \<longrightarrow>
        scanAllFiles fs' folders = Some files' \<longrightarrow>
          (isl (validateCodeOwners mm manifest fs' folders)
             \<longleftrightarrow> isl (validateCodeOwners mm manifest fs folders)))"
proof -
  have cnt: "\<And>r. length (filter (ruleMatchesPath mm r) files') = length (filter (ruleMatchesPath mm r) files)"
    using assms(2) by (rule count_filter_mset)
  have a: "fst (report mm rules folders files') = fst (report mm rules folders files)"
    by (simp add: report_distinct[OF assms(1)] cnt)
  have b: "mset (snd (report mm rules folders files')) = mset (snd (report mm rules folders files))"
    by (simp add: report_distinct[OF assms(1)] assms(2))
  obtain u c where r: "report mm rules folders files = (u, c)" by (cases "report mm rules folders files")
  obtain u' c' where r': "report mm rules folders files' = (u', c')" by (cases "report mm rules folders files'")
  have "u' = u" using a r r' by simp
  moreover have "c' = [] \<longleftrightarrow> c = []" using b r r' by (metis mset_zero_iff snd_conv)
  ultimately have e: "errorMessages u' c' = [] \<longleftrightarrow> errorMessages u c = []"
    by (simp add: errorMessages_Nil)
  have c: "isl (validateCodeOwners mm manifest fs' folders) \<longleftrightarrow> isl (validateCodeOwners mm manifest fs folders)"
    if "parseCodeOwnersFile manifest = Some rules" "scanAllFiles fs folders = Some files"
      "scanAllFiles fs' folders = Some files'"
    using validateCodeOwners_unfold[OF that(1) that(2) r]
      validateCodeOwners_unfold[OF that(1) that(3) r'] e by simp
  show ?thesis using a b c by blast
qed

theorem file_order_invariance_witness:
  "distinct (map fst [(''*.ts'', 0::nat)])
   \<and> mset [''pkg/b.js'', ''pkg/a.ts''] = mset [''pkg/a.ts'', ''pkg/b.js'']
   \<and> isl (validateCodeOwners minimatch (Some [''*.ts @owner''])
         (\<lambda>p. if p = ''pkg'' then Some [(''b.js'', File), (''a.ts'', File)] else None) [''pkg''])
   \<and> isl (validateCodeOwners minimatch (Some [''*.ts @owner''])
         (\<lambda>p. if p = ''pkg'' then Some [(''a.ts'', File), (''b.js'', File)] else None) [''pkg''])
   \<and> snd (report minimatch [(''*.ts'', 0)] [''pkg''] [''pkg/b.js'', ''pkg/a.ts'']) = [''pkg/b.js'']"
proof -
  let ?fs = "\<lambda>p. if p = ''pkg'' then Some [(''a.ts'', File), (''b.js'', File)] else None"
  let ?fs' = "\<lambda>p. if p = ''pkg'' then Some [(''b.js'', File), (''a.ts'', File)] else None"
  have d: "distinct (map fst [(''*.ts'', 0::nat)])" by simp
  have p: "parseCodeOwnersFile (Some [''*.ts @owner'']) = Some [(''*.ts'', 0)]" by code_simp
  have s: "scanAllFiles ?fs [''pkg''] = Some [''pkg/a.ts'', ''pkg/b.js'']"
    by (simp add: scanAllFiles_def)
  have s': "scanAllFiles ?fs' [''pkg''] = Some [''pkg/b.js'', ''pkg/a.ts'']"
    by (simp add: scanAllFiles_def)
  have m: "mset [''pkg/b.js'', ''pkg/a.ts''] = mset [''pkg/a.ts'', ''pkg/b.js'']" by simp
  have r: "report minimatch [(''*.ts'', 0)] [''pkg''] [''pkg/b.js'', ''pkg/a.ts'']
      = ([], [''pkg/b.js''])"
    by code_simp
  have v: "isl (validateCodeOwners minimatch (Some [''*.ts @owner'']) ?fs' [''pkg''])"
    using validateCodeOwners_unfold[OF p s' r] by (simp add: errorMessages_def)
  show ?thesis
    using file_order_invariance[OF d m, of minimatch "[''pkg'']" "Some [''*.ts @owner'']" ?fs ?fs'] d m p s s' v r
    by simp
qed

lemma unusedRulesOf_no_folders: "unusedRulesOf mm rules [] = []"
  by (simp add: unusedRulesOf_def)

lemma scanAllFiles_no_folders: "scanAllFiles fs [] = Some []"
  by (simp add: scanAllFiles_def)

text \<open>
  Claim C10. With an empty list of folders the validation succeeds for every manifest:
  no file is enumerated, no rule is relevant, and no rule is reported as unused
  whatever its counter.
\<close>

theorem validateCodeOwners_no_folders:
  "validateCodeOwners mm (Some manifestLines) fs [] = Inr ()
   \<and> scanAllFiles fs [] = Some []
   \<and> \<not> isRuleRelevantToFolders mm r []
   \<and> unusedRulesOf mm rules [] = []"
  by (simp add: validateCodeOwners_def parseCodeOwnersFile_def scanAllFiles_no_folders
      report_def unusedRulesOf_no_folders errorMessages_def)

theorem validateCodeOwners_no_folders_witness:
  "validateCodeOwners minimatch (Some [''/pkg/lib @owner'', ''*.ts @team'']) (\<lambda>p. None) [] = Inr ()"
  using validateCodeOwners_no_folders[of minimatch "[''/pkg/lib @owner'', ''*.ts @team'']" "\<lambda>p. None"] by simp

end
